theory Spec2Isabelle
  imports Main "HOL-Library.List_Lexorder" "HOL-Library.Char_ord" "HOL-Library.Product_Lexorder"
    "HOL-Library.Multiset"
begin

section \<open>Data model of \<open>tinypedal/setting.py\<close>\<close>

text \<open>
  The classes \<open>FileName\<close>, \<open>FilePath\<close> and \<open>Preset\<close> are slot classes; they become
  records, with a prefix on the field names because the three classes share slot names.
  A dictionary object is identified by a reference (a number); a preset slot holds a
  reference or Python's \<open>None\<close>.
\<close>

type_synonym dict_ref = nat

record FileName =
  fn_config :: string
  fn_setting :: string
  fn_classes :: string
  fn_heatmap :: string
  fn_brands :: string
  fn_brakes :: string
  fn_compounds :: string
  fn_last_setting :: string

record FilePath =
  fp_config :: string
  fp_settings :: string
  fp_brand_logo :: string
  fp_delta_best :: string
  fp_sector_best :: string
  fp_energy_delta :: string
  fp_fuel_delta :: string
  fp_track_map :: string
  fp_pace_notes :: string
  fp_track_notes :: string

record Preset =
  pr_config :: "dict_ref option"
  pr_setting :: "dict_ref option"
  pr_classes :: "dict_ref option"
  pr_heatmap :: "dict_ref option"
  pr_brands :: "dict_ref option"
  pr_brakes :: "dict_ref option"
  pr_compounds :: "dict_ref option"
  pr_brands_logo :: "dict_ref option"

text \<open>\<open>FileName.__init__\<close>.\<close>

definition FileName_init :: FileName where
  "FileName_init = \<lparr>fn_config = ''config.json'', fn_setting = ''default.json'',
     fn_classes = ''classes.json'', fn_heatmap = ''heatmap.json'', fn_brands = ''brands.json'',
     fn_brakes = ''brakes.json'', fn_compounds = ''compounds.json'',
     fn_last_setting = ''None.json''\<rparr>"

text \<open>
  \<open>getattr(self.filename, filetype, None)\<close>: the slot of that name, or \<open>None\<close>. Only the
  slots are modelled; attribute names that every Python object has (\<open>__class__\<close>,
  \<open>__doc__\<close>, ...) are outside the model.
\<close>

definition FileName_getattr :: "FileName \<Rightarrow> string \<Rightarrow> string option" where
  "FileName_getattr f filetype =
     (if filetype = ''config'' then Some (fn_config f)
      else if filetype = ''setting'' then Some (fn_setting f)
      else if filetype = ''classes'' then Some (fn_classes f)
      else if filetype = ''heatmap'' then Some (fn_heatmap f)
      else if filetype = ''brands'' then Some (fn_brands f)
      else if filetype = ''brakes'' then Some (fn_brakes f)
      else if filetype = ''compounds'' then Some (fn_compounds f)
      else if filetype = ''last_setting'' then Some (fn_last_setting f)
      else None)"

text \<open>
  \<open>getattr(self.user, filetype)\<close> has no default: the outer \<open>None\<close> is the
  \<open>AttributeError\<close>, the inner option is the slot's value (a dictionary or \<open>None\<close>).
\<close>

definition Preset_getattr :: "Preset \<Rightarrow> string \<Rightarrow> dict_ref option option" where
  "Preset_getattr p filetype =
     (if filetype = ''config'' then Some (pr_config p)
      else if filetype = ''setting'' then Some (pr_setting p)
      else if filetype = ''classes'' then Some (pr_classes p)
      else if filetype = ''heatmap'' then Some (pr_heatmap p)
      else if filetype = ''brands'' then Some (pr_brands p)
      else if filetype = ''brakes'' then Some (pr_brakes p)
      else if filetype = ''compounds'' then Some (pr_compounds p)
      else if filetype = ''brands_logo'' then Some (pr_brands_logo p)
      else None)"


text \<open>
  The part of \<open>Setting\<close> the save engine uses. \<open>_save_queue\<close> is a Python dictionary,
  which keeps insertion order: an association list with the newest key last.
  \<open>maximum_saving_attempts\<close> is \<open>self.application["maximum_saving_attempts"]\<close>.
\<close>

type_synonym save_queue_t = "(string \<times> (string \<times> dict_ref option)) list"

record Setting =
  save_delay :: int
  save_queue :: save_queue_t
  is_saving :: bool
  filename :: FileName
  user :: Preset
  path :: FilePath
  maximum_saving_attempts :: int

text \<open>
  What the engine does to the outside, in order: log lines, calls of the file
  primitives of \<open>userfile/json_setting.py\<close>, sleeps (in milliseconds) and thread starts.
  The elapsed time in the final log line is real time and is left out of \<open>LogInfo\<close>, whose
  numbers are the two attempt counts of the format string.
\<close>

datatype event =
    LogError string
  | LogFailed int
  | LogInfo string string int int
  | CreateBackup string string
  | SaveJson "dict_ref option" string string
  | VerifyJson "dict_ref option" string string bool
  | RestoreBackup string string
  | DeleteBackup string string
  | Sleep nat
  | StartThread string string "dict_ref option"

datatype error = AttributeError string

section \<open>\<open>Setting.save\<close>\<close>

text \<open>Lines 348-358: the request is added to the queue unless \<open>next_task\<close> is set.\<close>

definition save_enqueue :: "string \<Rightarrow> Setting \<Rightarrow> error + (Setting \<times> event list)" where
  "save_enqueue filetype s =
     (case FileName_getattr (filename s) filetype of
        None \<Rightarrow> Inr (s, [LogError ''SETTING: invalid file type, skipping''])
      | Some fname \<Rightarrow>
          if fname \<in> set (map fst (save_queue s)) then Inr (s, [])
          else
            let filepath = (if filetype = ''config'' then fp_config (path s)
                            else fp_settings (path s))
            in (case Preset_getattr (user s) filetype of
                  None \<Rightarrow> Inl (AttributeError filetype)
                | Some dict_user \<Rightarrow>
                    Inr (s\<lparr>save_queue := save_queue s @ [(fname, (filepath, dict_user))]\<rparr>, [])))"

text \<open>Lines 360-367: the head of the queue, the delay, and the test of the flag.\<close>

definition save_check :: "int \<Rightarrow> Setting \<Rightarrow> Setting \<times> string option" where
  "save_check delay s =
     (case save_queue s of
        [] \<Rightarrow> (s, None)
      | (fname, v) # rest \<Rightarrow>
          let s1 = s\<lparr>save_delay := delay\<rparr>
          in if \<not> is_saving s1 then (s1, Some fname) else (s1, None))"

text \<open>
  Lines 368-372: set the flag and start the thread on \<open>self._save_queue[filename]\<close>; a
  missing key is Python's \<open>KeyError\<close>, after the flag was set.
\<close>

definition save_spawn :: "string \<Rightarrow> Setting \<Rightarrow> Setting \<times> event list" where
  "save_spawn fname s =
     (let s1 = s\<lparr>is_saving := True\<rparr>
      in case map_of (save_queue s1) fname of
           None \<Rightarrow> (s1, [])
         | Some (filepath, dict_user) \<Rightarrow> (s1, [StartThread fname filepath dict_user]))"

definition save_trigger :: "int \<Rightarrow> Setting \<Rightarrow> Setting \<times> event list" where
  "save_trigger delay s =
     (case save_check delay s of
        (s1, None) \<Rightarrow> (s1, [])
      | (s1, Some fname) \<Rightarrow> save_spawn fname s1)"

text \<open>The whole of \<open>save(delay, filetype, next_task)\<close>, run without interruption.\<close>

definition save :: "int \<Rightarrow> string \<Rightarrow> bool \<Rightarrow> Setting \<Rightarrow> error + (Setting \<times> event list)" where
  "save delay filetype next_task s =
     (if next_task then Inr (save_trigger delay s)
      else (case save_enqueue filetype s of
              Inl e \<Rightarrow> Inl e
            | Inr (s1, ev1) \<Rightarrow>
                (case save_trigger delay s1 of (s2, ev2) \<Rightarrow> Inr (s2, ev1 @ ev2))))"

section \<open>The file primitives\<close>

text \<open>
  The disk: the content of every file, keyed by (directory, file name), and the backup
  artifacts. \<open>None\<close> as content is a file that does not exist.
\<close>

type_synonym file_key = "string \<times> string"

record disk =
  files :: "file_key \<Rightarrow> string option"
  backups :: "file_key \<Rightarrow> string option option"

text \<open>
  Modelled from the spec: \<open>create_backup_file\<close> of \<open>userfile/json_setting.py\<close>, which is
  not among the sources. The backup captures the pre-write state of the target file.
\<close>

definition create_backup_file :: "string \<Rightarrow> string \<Rightarrow> disk \<Rightarrow> disk" where
  "create_backup_file fname filepath d =
     d\<lparr>backups := (backups d)((filepath, fname) := Some (files d (filepath, fname)))\<rparr>"

text \<open>
  Modelled from the spec: \<open>restore_backup_file\<close> of \<open>userfile/json_setting.py\<close>. It
  replaces the target with the backup.
\<close>

definition restore_backup_file :: "string \<Rightarrow> string \<Rightarrow> disk \<Rightarrow> disk" where
  "restore_backup_file fname filepath d =
     (case backups d (filepath, fname) of
        None \<Rightarrow> d
      | Some c \<Rightarrow> d\<lparr>files := (files d)((filepath, fname) := c)\<rparr>)"

text \<open>
  Modelled from the spec: \<open>delete_backup_file\<close> of \<open>userfile/json_setting.py\<close>. It
  removes the backup artifact.
\<close>

definition delete_backup_file :: "string \<Rightarrow> string \<Rightarrow> disk \<Rightarrow> disk" where
  "delete_backup_file fname filepath d =
     d\<lparr>backups := (backups d)((filepath, fname) := None)\<rparr>"

text \<open>
  Modelled from the spec: \<open>save_json_file\<close> of \<open>userfile/json_setting.py\<close>. What a write
  leaves in the target file is not known (it may be the serialised dictionary, a part of
  it, or nothing): it is the parameter \<open>content\<close>.
\<close>

definition save_json_file :: "string option \<Rightarrow> string \<Rightarrow> string \<Rightarrow> disk \<Rightarrow> disk" where
  "save_json_file content fname filepath d =
     d\<lparr>files := (files d)((filepath, fname) := content)\<rparr>"

text \<open>
  The environment of one worker run: what \<open>verify_json_file\<close> answers and what
  \<open>save_json_file\<close> leaves on disk, for the attempt made with a given value of the
  countdown \<open>attempts\<close>.
\<close>

record env =
  verify_json_file :: "int \<Rightarrow> bool"
  written :: "int \<Rightarrow> string option"

section \<open>The saving thread \<open>Setting.__saving\<close>\<close>

text \<open>Lines 379-381: the debounce loop, run without interruption.\<close>

function delay_loop :: "Setting \<Rightarrow> event list \<Rightarrow> Setting \<times> event list" where
  "delay_loop s tr =
     (if save_delay s > 0
      then delay_loop (s\<lparr>save_delay := save_delay s - 1\<rparr>) (tr @ [Sleep 10])
      else (s, tr))"
  by pat_completeness auto
termination
  by (relation "measure (\<lambda>(s, tr). nat (save_delay s))") auto

text \<open>Lines 386-392: the attempts, counted down; \<open>break\<close> keeps the countdown positive.\<close>

function attempts_loop ::
  "env \<Rightarrow> string \<Rightarrow> string \<Rightarrow> dict_ref option \<Rightarrow> int \<Rightarrow> disk \<Rightarrow> event list
     \<Rightarrow> int \<times> disk \<times> event list" where
  "attempts_loop e fname filepath dict_user attempts d tr =
     (if attempts > 0 then
        let d1 = save_json_file (written e attempts) fname filepath d;
            tr1 = tr @ [SaveJson dict_user fname filepath]
        in if verify_json_file e attempts
           then (attempts, d1, tr1 @ [VerifyJson dict_user fname filepath True])
           else attempts_loop e fname filepath dict_user (attempts - 1) d1
                  (tr1 @ [VerifyJson dict_user fname filepath False,
                          LogFailed (attempts - 1), Sleep 50])
      else (attempts, d, tr))"
  by pat_completeness auto
termination
  by (relation "measure (\<lambda>(e, fname, filepath, dict_user, attempts, d, tr). nat attempts)") auto

declare delay_loop.simps [simp del]
declare attempts_loop.simps [simp del]

text \<open>Lines 384-409: backup, attempts, restore on failure, log, delete the backup.\<close>

definition saving_cycle ::
  "env \<Rightarrow> int \<Rightarrow> string \<Rightarrow> string \<Rightarrow> dict_ref option \<Rightarrow> disk \<Rightarrow> disk \<times> event list" where
  "saving_cycle e max_attempts fname filepath dict_user d =
     (case attempts_loop e fname filepath dict_user max_attempts
             (create_backup_file fname filepath d) [CreateBackup fname filepath] of
        (attempts, d1, tr1) \<Rightarrow>
          (if attempts > 0
           then (delete_backup_file fname filepath d1,
                 tr1 @ [LogInfo fname ''saved'' (max_attempts - attempts) attempts,
                        DeleteBackup fname filepath])
           else (delete_backup_file fname filepath (restore_backup_file fname filepath d1),
                 tr1 @ [RestoreBackup fname filepath,
                        LogInfo fname ''failed saving'' (max_attempts - attempts) attempts,
                        DeleteBackup fname filepath])))"

text \<open>Line 411: \<open>self._save_queue.pop(filename, None)\<close>.\<close>

definition queue_pop :: "string \<Rightarrow> save_queue_t \<Rightarrow> save_queue_t" where
  "queue_pop fname q = filter (\<lambda>kv. fst kv \<noteq> fname) q"

text \<open>Lines 411-416: leave the queue, clear the flag, start the next task if any.\<close>

definition saving_finish :: "string \<Rightarrow> Setting \<Rightarrow> Setting \<times> event list" where
  "saving_finish fname s =
     (let s1 = s\<lparr>save_queue := queue_pop fname (save_queue s)\<rparr>;
          s2 = s1\<lparr>is_saving := False\<rparr>
      in if save_queue s2 \<noteq> [] then save_trigger 0 s2 else (s2, []))"

text \<open>
  The whole thread body, run with no other thread in between: the state of the engine
  and the disk go in, and come out with the events in order.
\<close>

definition saving ::
  "env \<Rightarrow> string \<Rightarrow> string \<Rightarrow> dict_ref option \<Rightarrow> Setting \<times> disk
     \<Rightarrow> Setting \<times> disk \<times> event list" where
  "saving e fname filepath dict_user sd =
     (case sd of (s, d) \<Rightarrow>
        let max_attempts = max (maximum_saving_attempts s) 3
        in case delay_loop s [] of (s1, tr1) \<Rightarrow>
             (case saving_cycle e max_attempts fname filepath dict_user d of (d2, tr2) \<Rightarrow>
                (case saving_finish fname s1 of (s3, tr3) \<Rightarrow> (s3, d2, tr1 @ tr2 @ tr3))))"

text \<open>The events of one attempt whose verification fails (lines 387-392).\<close>

definition failed_attempt :: "dict_ref option \<Rightarrow> string \<Rightarrow> string \<Rightarrow> int \<Rightarrow> event list" where
  "failed_attempt dict_user fname filepath attempts =
     [SaveJson dict_user fname filepath, VerifyJson dict_user fname filepath False,
      LogFailed (attempts - 1), Sleep 50]"

section \<open>The threads of the engine\<close>

text \<open>
  A saving thread is a program counter and the arguments it was started with. The
  thread body is cut at the statements where another thread can see or change the
  shared state: line 376 (\<open>W_init\<close>), one round of the debounce loop (\<open>W_delay\<close>), the
  backup-write-verify cycle of lines 384-409, which touches only the disk and the log
  (\<open>W_cycle\<close>), line 411 (\<open>W_pop\<close>), line 412 (\<open>W_clear\<close>) and lines 415-416 (\<open>W_next\<close>).
  \<open>W_spawn\<close> is a thread stopped inside its own call of \<open>save\<close>, after the test of
  \<open>is_saving\<close> on line 367 and before the assignment on line 368.
\<close>

datatype pc = W_init | W_delay | W_cycle | W_pop | W_clear | W_next | W_spawn string

record worker =
  w_pc :: pc
  w_filename :: string
  w_filepath :: string
  w_dict :: "dict_ref option"
  w_max :: int

fun thread_of :: "event \<Rightarrow> worker list" where
  "thread_of (StartThread fname filepath dict_user) =
     [\<lparr>w_pc = W_init, w_filename = fname, w_filepath = filepath, w_dict = dict_user,
       w_max = 0\<rparr>]"
| "thread_of _ = []"

definition start_threads :: "event list \<Rightarrow> worker list" where
  "start_threads evs = concat (map thread_of evs)"

text \<open>
  One step of a saving thread: the thread afterwards (\<open>None\<close> when it has returned), the
  engine state, the disk and the events of the step. With \<open>fine\<close> the thread's own call
  of \<open>save\<close> on line 416 can be interrupted between lines 367 and 368; without it the
  call runs as a whole.
\<close>

definition worker_step ::
  "bool \<Rightarrow> env \<Rightarrow> worker \<Rightarrow> Setting \<Rightarrow> disk \<Rightarrow> worker option \<times> Setting \<times> disk \<times> event list" where
  "worker_step fine e w s d =
     (case w_pc w of
        W_init \<Rightarrow>
          (Some (w\<lparr>w_pc := W_delay, w_max := max (maximum_saving_attempts s) 3\<rparr>), s, d, [])
      | W_delay \<Rightarrow>
          if save_delay s > 0
          then (Some w, s\<lparr>save_delay := save_delay s - 1\<rparr>, d, [Sleep 10])
          else (Some (w\<lparr>w_pc := W_cycle\<rparr>), s, d, [])
      | W_cycle \<Rightarrow>
          (case saving_cycle e (w_max w) (w_filename w) (w_filepath w) (w_dict w) d of
             (d1, tr) \<Rightarrow> (Some (w\<lparr>w_pc := W_pop\<rparr>), s, d1, tr))
      | W_pop \<Rightarrow>
          (Some (w\<lparr>w_pc := W_clear\<rparr>),
           s\<lparr>save_queue := queue_pop (w_filename w) (save_queue s)\<rparr>, d, [])
      | W_clear \<Rightarrow> (Some (w\<lparr>w_pc := W_next\<rparr>), s\<lparr>is_saving := False\<rparr>, d, [])
      | W_next \<Rightarrow>
          if save_queue s = [] then (None, s, d, [])
          else if fine then
            (case save_check 0 s of
               (s1, None) \<Rightarrow> (None, s1, d, [])
             | (s1, Some fname) \<Rightarrow> (Some (w\<lparr>w_pc := W_spawn fname\<rparr>), s1, d, []))
          else (case save_trigger 0 s of (s1, ev) \<Rightarrow> (None, s1, d, ev))
      | W_spawn fname \<Rightarrow> (case save_spawn fname s of (s1, ev) \<Rightarrow> (None, s1, d, ev)))"

text \<open>
  The whole system: the engine, the disk, the saving threads that have not returned,
  the events so far, and (for stating the order of the writes) the file names in the
  order in which they entered the queue.
\<close>

record system =
  st :: Setting
  dsk :: disk
  threads :: "worker list"
  trace :: "event list"
  requested :: "string list"

text \<open>
  What can happen next: the user interface calls \<open>save\<close> (as a whole), the user
  interface assigns the settings it owns (\<open>cfg.filename.setting = ...\<close>, \<open>cfg.create()\<close>),
  or the saving thread at position \<open>i\<close> takes its next step.
\<close>

datatype action =
    Ui_save int string
  | Ui_assign FileName Preset FilePath int
  | Worker nat env

definition step :: "bool \<Rightarrow> action \<Rightarrow> system \<Rightarrow> system option" where
  "step fine a sys =
     (case a of
        Ui_save delay filetype \<Rightarrow>
          (case save delay filetype False (st sys) of
             Inl err \<Rightarrow> None
           | Inr (s1, ev) \<Rightarrow>
               Some (sys\<lparr>st := s1,
                         threads := threads sys @ start_threads ev,
                         trace := trace sys @ ev,
                         requested := requested sys @
                           map fst (drop (length (save_queue (st sys))) (save_queue s1))\<rparr>))
      | Ui_assign f u p m \<Rightarrow>
          Some (sys\<lparr>st := (st sys)\<lparr>filename := f, user := u, path := p,
                                   maximum_saving_attempts := m\<rparr>\<rparr>)
      | Worker i e \<Rightarrow>
          if i < length (threads sys) then
            (case worker_step fine e (threads sys ! i) (st sys) (dsk sys) of
               (w1, s1, d1, ev) \<Rightarrow>
                 Some (sys\<lparr>st := s1, dsk := d1,
                           threads :=
                             (case w1 of
                                None \<Rightarrow> take i (threads sys) @ drop (Suc i) (threads sys)
                              | Some w2 \<Rightarrow> (threads sys)[i := w2]) @ start_threads ev,
                           trace := trace sys @ ev\<rparr>))
          else None)"

text \<open>\<open>Setting.__init__\<close> leaves the delay at 0, the queue empty and the flag down.\<close>

definition initial :: "system \<Rightarrow> bool" where
  "initial sys \<longleftrightarrow>
     save_delay (st sys) = 0 \<and> save_queue (st sys) = [] \<and> \<not> is_saving (st sys) \<and>
     threads sys = [] \<and> trace sys = [] \<and> requested sys = []"

inductive reachable :: "bool \<Rightarrow> system \<Rightarrow> bool" for fine :: bool where
  reachable_initial: "initial sys \<Longrightarrow> reachable fine sys"
| reachable_step: "reachable fine sys \<Longrightarrow> step fine a sys = Some sys1 \<Longrightarrow> reachable fine sys1"

fun exec :: "bool \<Rightarrow> action list \<Rightarrow> system \<Rightarrow> system option" where
  "exec fine [] sys = Some sys"
| "exec fine (a # as) sys =
     (case step fine a sys of None \<Rightarrow> None | Some sys1 \<Rightarrow> exec fine as sys1)"


text \<open>The file names of the writes, in the order in which their backups were taken.\<close>

fun backup_of :: "event \<Rightarrow> string list" where
  "backup_of (CreateBackup fname filepath) = [fname]"
| "backup_of _ = []"

definition started :: "event list \<Rightarrow> string list" where
  "started evs = concat (map backup_of evs)"

section \<open>\<open>Setting.preset_list\<close>\<close>







section \<open>Bursts of requests\<close>


section \<open>Example values\<close>

definition example_setting :: Setting where
  "example_setting =
     \<lparr>save_delay = 0, save_queue = [], is_saving = False, filename = FileName_init,
      user = \<lparr>pr_config = Some 1, pr_setting = Some 2, pr_classes = Some 3,
              pr_heatmap = Some 4, pr_brands = Some 5, pr_brakes = Some 6,
              pr_compounds = Some 7, pr_brands_logo = None\<rparr>,
      path = \<lparr>fp_config = ''/config/'', fp_settings = ''/settings/'', fp_brand_logo = [],
              fp_delta_best = [], fp_sector_best = [], fp_energy_delta = [],
              fp_fuel_delta = [], fp_track_map = [], fp_pace_notes = [],
              fp_track_notes = []\<rparr>,
      maximum_saving_attempts = 3\<rparr>"

definition example_disk :: disk where
  "example_disk = \<lparr>files = (\<lambda>k. if k = (''/settings/'', ''default.json'') then Some ''{}''
                                else None),
                    backups = (\<lambda>k. None)\<rparr>"

definition env_fail :: env where
  "env_fail = \<lparr>verify_json_file = (\<lambda>a. False), written = (\<lambda>a. Some ''garbage'')\<rparr>"

definition env_ok :: env where
  "env_ok = \<lparr>verify_json_file = (\<lambda>a. True), written = (\<lambda>a. Some ''{a: 1}'')\<rparr>"

definition example_system :: system where
  "example_system = \<lparr>st = example_setting, dsk = example_disk, threads = [], trace = [],
     requested = []\<rparr>"

definition busy_setting :: Setting where
  "busy_setting = example_setting\<lparr>save_queue := [(''default.json'', ''/settings/'', Some 2)],
     is_saving := True\<rparr>"






text \<open>
  Two requests and the thread of the first one up to line 412 (\<open>handover_schedule\<close>).
  From there either the two threads run to their end, one after the other
  (\<open>drain_schedule\<close>), or the first thread tests the flag, a third request arrives, and
  the thread goes on to start the next one (\<open>race_schedule\<close>).
\<close>

definition handover_schedule :: "action list" where
  "handover_schedule =
     [Ui_save 0 ''config'', Ui_save 0 ''classes'', Worker 0 env_ok, Worker 0 env_ok,
      Worker 0 env_ok, Worker 0 env_ok, Worker 0 env_ok]"



section \<open>The invariant of the engine\<close>




section \<open>The saving cycle\<close>

lemma rev_upto_step: "0 < a \<Longrightarrow> rev [1..a] = a # rev [1..a - 1]"
  by (simp add: upto_rec2)

lemma attempts_loop_all_fail:
  "\<forall>a. \<not> verify_json_file e a \<Longrightarrow>
         fst (attempts_loop e fname filepath du a d tr) = min a 0 \<and>
         snd (snd (attempts_loop e fname filepath du a d tr)) =
           tr @ concat (map (failed_attempt du fname filepath) (rev [1..a]))"
proof (induction e fname filepath du a d tr rule: attempts_loop.induct)
  case (1 e fname filepath dict_user attempts d tr)
  show ?case
  proof (cases "attempts > 0")
    case True
    with 1 show ?thesis
      apply (subst (1 2) attempts_loop.simps)
      apply (simp add: Let_def rev_upto_step failed_attempt_def [abs_def])
      done
  next
    case False
    then show ?thesis by (subst (1 2) attempts_loop.simps) simp
  qed
qed

lemma attempts_loop_disk:
  "backups (fst (snd (attempts_loop e fname filepath du a d tr))) = backups d \<and>
   (\<forall>k. k \<noteq> (filepath, fname) \<longrightarrow>
      files (fst (snd (attempts_loop e fname filepath du a d tr))) k = files d k)"
proof (induction e fname filepath du a d tr rule: attempts_loop.induct)
  case (1 e fname filepath dict_user attempts d tr)
  show ?case
  proof (cases "attempts > 0")
    case True
    with 1 show ?thesis
      apply (subst (1 2) attempts_loop.simps)
      apply (simp add: Let_def save_json_file_def)
      done
  next
    case False
    then show ?thesis by (subst (1 2) attempts_loop.simps) simp
  qed
qed


lemma delay_loop_elapsed: "save_delay s \<le> 0 \<Longrightarrow> delay_loop s tr = (s, tr)"
  by (subst delay_loop.simps) simp

lemma delay_loop_result:
  "delay_loop s tr =
     (s\<lparr>save_delay := min (save_delay s) 0\<rparr>, tr @ replicate (nat (save_delay s)) (Sleep 10))"
proof (induction s tr rule: delay_loop.induct)
  case (1 s tr)
  show ?case
  proof (cases "save_delay s > 0")
    case True
    then have "nat (save_delay s) = Suc (nat (save_delay s - 1))" by simp
    with True 1 show ?thesis
      by (subst delay_loop.simps) (simp add: replicate_app_Cons_same)
  next
    case False
    then show ?thesis by (subst delay_loop.simps) simp
  qed
qed

lemma save_trigger_events:
  "ev \<in> set (snd (save_trigger delay s)) \<Longrightarrow> \<exists>a b c. ev = StartThread a b c"
  by (auto simp: save_trigger_def save_check_def save_spawn_def Let_def
           split: list.splits prod.splits option.splits if_splits)

lemma saving_finish_events:
  "ev \<in> set (snd (saving_finish fname s)) \<Longrightarrow> \<exists>a b c. ev = StartThread a b c"
  by (auto simp: saving_finish_def Let_def dest: save_trigger_events split: if_splits)

lemma count_failed_attempts:
  "length (filter (\<lambda>ev. ev = SaveJson du fname filepath)
             (concat (map (failed_attempt du fname filepath) xs))) = length xs"
  by (induction xs) (simp_all add: failed_attempt_def)

lemma filter_no_events:
  "(\<And>ev. ev \<in> set xs \<Longrightarrow> \<not> P ev) \<Longrightarrow> filter P xs = []"
  by (induction xs) auto

lemma saving_cycle_all_fail:
  assumes "\<forall>a. \<not> verify_json_file e a" and "0 < m"
  shows "snd (saving_cycle e m fname filepath du d) =
           CreateBackup fname filepath #
           concat (map (failed_attempt du fname filepath) (rev [1..m])) @
           [RestoreBackup fname filepath, LogInfo fname ''failed saving'' m 0,
            DeleteBackup fname filepath]"
proof -
  obtain a d1 tr1 where al: "attempts_loop e fname filepath du m
      (create_backup_file fname filepath d) [CreateBackup fname filepath] = (a, d1, tr1)"
    by (metis prod_cases3)
  from attempts_loop_all_fail [OF assms(1), of fname filepath du m
      "create_backup_file fname filepath d" "[CreateBackup fname filepath]"] al assms(2)
  have "a = 0" and "tr1 = [CreateBackup fname filepath] @
      concat (map (failed_attempt du fname filepath) (rev [1..m]))"
    by simp_all
  with al show ?thesis by (simp add: saving_cycle_def)
qed

lemma saving_cycle_all_fail_disk:
  assumes "\<forall>a. \<not> verify_json_file e a" and "0 < m"
  shows "files (fst (saving_cycle e m fname filepath du d)) = files d"
proof -
  let ?d0 = "create_backup_file fname filepath d"
  obtain a d1 tr1 where al: "attempts_loop e fname filepath du m ?d0
      [CreateBackup fname filepath] = (a, d1, tr1)"
    by (metis prod_cases3)
  from attempts_loop_all_fail [OF assms(1), of fname filepath du m ?d0
      "[CreateBackup fname filepath]"] al assms(2)
  have a0: "a = 0" by simp
  from attempts_loop_disk [of e fname filepath du m ?d0 "[CreateBackup fname filepath]"] al
  have bk: "backups d1 = backups ?d0"
    and fl: "\<And>k. k \<noteq> (filepath, fname) \<Longrightarrow> files d1 k = files ?d0 k"
    by auto
  have "files (delete_backup_file fname filepath (restore_backup_file fname filepath d1)) k
          = files d k" for k
    using bk fl [of k]
    by (simp add: delete_backup_file_def restore_backup_file_def create_backup_file_def)
  then show ?thesis using al a0 by (simp add: saving_cycle_def fun_eq_iff)
qed

text \<open>
  Claim C4. When \<open>verify_json_file\<close> answers false on every attempt, the thread,
  after its debounce sleeps, takes the backup, calls \<open>save_json_file\<close> exactly
  \<open>max(m, 3)\<close> times, each followed by the failed verification, the log line with the
  attempts left and the 50 ms sleep, then calls \<open>restore_backup_file\<close>, logs
  "failed saving" with \<open>max(m, 3)\<close> attempts used and 0 left, and calls
  \<open>delete_backup_file\<close>; what follows is the hand-over of lines 411-416.
\<close>

theorem saving_all_attempts_fail:
  assumes "\<forall>a. \<not> verify_json_file e a"
  shows "snd (snd (saving e fname filepath du (s, d))) =
           replicate (nat (save_delay s)) (Sleep 10) @
           CreateBackup fname filepath #
           concat (map (failed_attempt du fname filepath)
                     (rev [1..max (maximum_saving_attempts s) 3])) @
           [RestoreBackup fname filepath,
            LogInfo fname ''failed saving'' (max (maximum_saving_attempts s) 3) 0,
            DeleteBackup fname filepath] @
           snd (saving_finish fname (s\<lparr>save_delay := min (save_delay s) 0\<rparr>))
         \<and> length (filter (\<lambda>ev. ev = SaveJson du fname filepath)
                     (snd (snd (saving e fname filepath du (s, d)))))
             = nat (max (maximum_saving_attempts s) 3)"
proof -
  let ?m = "max (maximum_saving_attempts s) 3"
  let ?s1 = "s\<lparr>save_delay := min (save_delay s) 0\<rparr>"
  have m: "0 < ?m" by simp
  have tr: "snd (snd (saving e fname filepath du (s, d))) =
      replicate (nat (save_delay s)) (Sleep 10) @
      snd (saving_cycle e ?m fname filepath du d) @ snd (saving_finish fname ?s1)"
    by (simp add: saving_def Let_def delay_loop_result split: prod.splits)
  have fin: "filter (\<lambda>ev. ev = SaveJson du fname filepath) (snd (saving_finish fname ?s1)) = []"
    by (rule filter_no_events) (auto dest: saving_finish_events)
  have len: "length (rev [1..?m]) = nat ?m" by simp
  show ?thesis
    unfolding tr saving_cycle_all_fail [OF assms m]
    using fin len by (simp add: count_failed_attempts failed_attempt_def)
qed


text \<open>
  Claim C1. When \<open>verify_json_file\<close> answers false on every attempt, the thread calls
  \<open>restore_backup_file\<close> on the target file, and with the backup and restore primitives
  of the specification every file on disk has afterwards the content it had before.
\<close>

theorem failed_save_restores_file:
  assumes "\<forall>a. \<not> verify_json_file e a"
  shows "RestoreBackup fname filepath \<in> set (snd (snd (saving e fname filepath du (s, d))))
         \<and> files (fst (snd (saving e fname filepath du (s, d)))) = files d"
proof -
  let ?m = "max (maximum_saving_attempts s) 3"
  have m: "0 < ?m" by simp
  obtain s1 tr1 where dl: "delay_loop s [] = (s1, tr1)" by (metis surj_pair)
  have "snd (snd (saving e fname filepath du (s, d))) =
      tr1 @ snd (saving_cycle e ?m fname filepath du d) @ snd (saving_finish fname s1)"
    and "fst (snd (saving e fname filepath du (s, d))) =
      fst (saving_cycle e ?m fname filepath du d)"
    using dl by (simp_all add: saving_def Let_def split: prod.splits)
  then show ?thesis
    using saving_cycle_all_fail [OF assms m, of fname filepath du d]
      saving_cycle_all_fail_disk [OF assms m, of fname filepath du d]
    by simp
qed

theorem failed_save_restores_file_witness:
  "(\<forall>a. \<not> verify_json_file env_fail a) \<and>
   RestoreBackup ''default.json'' ''/settings/'' \<in>
     set (snd (snd (saving env_fail ''default.json'' ''/settings/'' (Some 2)
                      (example_setting, example_disk))))
   \<and> files (fst (snd (saving env_fail ''default.json'' ''/settings/'' (Some 2)
                         (example_setting, example_disk)))) = files example_disk"
  using failed_save_restores_file [of env_fail "''default.json''" "''/settings/''" "Some 2"
      example_setting example_disk]
  by (simp add: env_fail_def)

theorem saving_all_attempts_fail_witness:
  "(\<forall>a. \<not> verify_json_file env_fail a) \<and>
   maximum_saving_attempts example_setting = 3 \<and>
   snd (snd (saving env_fail ''default.json'' ''/settings/'' (Some 2)
               (example_setting, example_disk))) =
     [CreateBackup ''default.json'' ''/settings/'',
      SaveJson (Some 2) ''default.json'' ''/settings/'',
      VerifyJson (Some 2) ''default.json'' ''/settings/'' False, LogFailed 2, Sleep 50,
      SaveJson (Some 2) ''default.json'' ''/settings/'',
      VerifyJson (Some 2) ''default.json'' ''/settings/'' False, LogFailed 1, Sleep 50,
      SaveJson (Some 2) ''default.json'' ''/settings/'',
      VerifyJson (Some 2) ''default.json'' ''/settings/'' False, LogFailed 0, Sleep 50,
      RestoreBackup ''default.json'' ''/settings/'',
      LogInfo ''default.json'' ''failed saving'' 3 0,
      DeleteBackup ''default.json'' ''/settings/'']"
proof -
  have u: "rev [1..3::int] = [3, 2, 1]" by (simp add: upto.simps)
  have z: "save_delay example_setting = 0" by (simp add: example_setting_def)
  have f: "snd (saving_finish ''default.json'' (example_setting\<lparr>save_delay := 0\<rparr>)) = []"
    by (simp add: saving_finish_def example_setting_def queue_pop_def Let_def)
  have h1: "\<forall>a. \<not> verify_json_file env_fail a" by (simp add: env_fail_def)
  have m: "maximum_saving_attempts example_setting = 3" by (simp add: example_setting_def)
  show ?thesis
    using h1 saving_all_attempts_fail [OF h1, of "''default.json''" "''/settings/''"
        "Some 2" example_setting example_disk]
    by (simp add: m u z f failed_attempt_def)
qed

section \<open>Requests\<close>

lemma attempts_loop_first_ok:
  "0 < a \<Longrightarrow> verify_json_file e a \<Longrightarrow>
   attempts_loop e fname filepath du a d tr =
     (a, save_json_file (written e a) fname filepath d,
      tr @ [SaveJson du fname filepath, VerifyJson du fname filepath True])"
  by (subst attempts_loop.simps) (simp add: Let_def)



text \<open>
  Claim C7 (amended). From an empty queue with no thread running, \<open>save(0, "setting")\<close>
  queues the preset file and starts a thread for it; when the first verification
  succeeds that thread takes the backup, writes once, verifies once, logs "saved" and
  deletes the backup, and leaves the queue empty and \<open>is_saving\<close> false. The two
  numbers of the log line are \<open>max_attempts - attempts\<close> and \<open>attempts\<close>: 0 and
  \<open>max_attempts\<close>.
\<close>

theorem save_setting_first_attempt:
  assumes "save_queue s = []" and "\<not> is_saving s"
    and "verify_json_file e (max (maximum_saving_attempts s) 3)"
  shows "save 0 ''setting'' False s =
           Inr (s\<lparr>save_queue := [(fn_setting (filename s), fp_settings (path s), pr_setting (user s))],
                  save_delay := 0, is_saving := True\<rparr>,
                [StartThread (fn_setting (filename s)) (fp_settings (path s)) (pr_setting (user s))])
         \<and> saving e (fn_setting (filename s)) (fp_settings (path s)) (pr_setting (user s))
             (s\<lparr>save_queue := [(fn_setting (filename s), fp_settings (path s), pr_setting (user s))],
                save_delay := 0, is_saving := True\<rparr>, d) =
           (s\<lparr>save_queue := [], save_delay := 0, is_saving := False\<rparr>,
            delete_backup_file (fn_setting (filename s)) (fp_settings (path s))
              (save_json_file (written e (max (maximum_saving_attempts s) 3))
                 (fn_setting (filename s)) (fp_settings (path s))
                 (create_backup_file (fn_setting (filename s)) (fp_settings (path s)) d)),
            [CreateBackup (fn_setting (filename s)) (fp_settings (path s)),
             SaveJson (pr_setting (user s)) (fn_setting (filename s)) (fp_settings (path s)),
             VerifyJson (pr_setting (user s)) (fn_setting (filename s)) (fp_settings (path s)) True,
             LogInfo (fn_setting (filename s)) ''saved'' 0 (max (maximum_saving_attempts s) 3),
             DeleteBackup (fn_setting (filename s)) (fp_settings (path s))])"
proof -
  have m: "0 < max (maximum_saving_attempts s) 3" by simp
  show ?thesis
    using assms
    by (simp add: save_def save_enqueue_def FileName_getattr_def Preset_getattr_def
        save_trigger_def save_check_def save_spawn_def Let_def saving_def delay_loop_elapsed
        saving_cycle_def attempts_loop_first_ok [OF m] saving_finish_def queue_pop_def)
qed

lemma start_threads_append [simp]:
  "start_threads (xs @ ys) = start_threads xs @ start_threads ys"
  by (simp add: start_threads_def)

lemma save_trigger_state:
  "save_trigger delay s =
     (if save_queue s = [] then (s, [])
      else if is_saving s then (s\<lparr>save_delay := delay\<rparr>, [])
      else (s\<lparr>save_delay := delay, is_saving := True\<rparr>,
            [StartThread (fst (hd (save_queue s))) (fst (snd (hd (save_queue s))))
               (snd (snd (hd (save_queue s))))]))"
  by (cases "save_queue s")
     (auto simp: save_trigger_def save_check_def save_spawn_def Let_def split: prod.splits)












text \<open>
  The file type \<open>last_setting\<close> is a slot of \<open>FileName\<close> and not of \<open>Preset\<close>: line 357
  raises \<open>AttributeError\<close>.
\<close>

lemma save_last_setting_raises:
  "save delay ''last_setting'' False example_setting = Inl (AttributeError ''last_setting'')"
  by (simp add: save_def save_enqueue_def FileName_getattr_def Preset_getattr_def
      example_setting_def FileName_init_def)





theorem save_setting_first_attempt_witness:
  "save_queue example_setting = [] \<and> \<not> is_saving example_setting \<and>
   verify_json_file env_ok (max (maximum_saving_attempts example_setting) 3) \<and>
   save 0 ''setting'' False example_setting =
     Inr (busy_setting, [StartThread ''default.json'' ''/settings/'' (Some 2)]) \<and>
   fst (saving env_ok ''default.json'' ''/settings/'' (Some 2) (busy_setting, example_disk)) =
     example_setting \<and>
   snd (snd (saving env_ok ''default.json'' ''/settings/'' (Some 2)
               (busy_setting, example_disk))) =
     [CreateBackup ''default.json'' ''/settings/'',
      SaveJson (Some 2) ''default.json'' ''/settings/'',
      VerifyJson (Some 2) ''default.json'' ''/settings/'' True,
      LogInfo ''default.json'' ''saved'' 0 3,
      DeleteBackup ''default.json'' ''/settings/'']"
proof -
  have h1: "save_queue example_setting = []" and h2: "\<not> is_saving example_setting"
    by (simp_all add: example_setting_def)
  have h3: "verify_json_file env_ok (max (maximum_saving_attempts example_setting) 3)"
    by (simp add: env_ok_def)
  have v: "fn_setting (filename example_setting) = ''default.json''"
    "fp_settings (path example_setting) = ''/settings/''"
    "pr_setting (user example_setting) = Some 2"
    "maximum_saving_attempts example_setting = 3"
    by (simp_all add: example_setting_def FileName_init_def)
  have b: "example_setting\<lparr>save_queue := [(''default.json'', ''/settings/'', Some 2)],
      save_delay := 0, is_saving := True\<rparr> = busy_setting"
    "example_setting\<lparr>save_queue := [], save_delay := 0, is_saving := False\<rparr> = example_setting"
    by (simp_all add: busy_setting_def example_setting_def)
  show ?thesis
    using h1 h2 h3 save_setting_first_attempt [OF h1 h2 h3, of example_disk]
    unfolding v b by simp
qed

text \<open>
  Claim C7 fails as stated: after a first attempt that verifies, the log line carries
  0 and 3, not 1 attempt used.
\<close>

theorem save_setting_log_reports_zero_used:
  "save 0 ''setting'' False example_setting =
     Inr (busy_setting, [StartThread ''default.json'' ''/settings/'' (Some 2)]) \<and>
   verify_json_file env_ok 3 \<and>
   snd (snd (saving env_ok ''default.json'' ''/settings/'' (Some 2)
               (busy_setting, example_disk))) =
     [CreateBackup ''default.json'' ''/settings/'',
      SaveJson (Some 2) ''default.json'' ''/settings/'',
      VerifyJson (Some 2) ''default.json'' ''/settings/'' True,
      LogInfo ''default.json'' ''saved'' 0 3,
      DeleteBackup ''default.json'' ''/settings/''] \<and>
   LogInfo ''default.json'' ''saved'' 1 3 \<notin>
     set (snd (snd (saving env_ok ''default.json'' ''/settings/'' (Some 2)
                      (busy_setting, example_disk))))"
proof -
  have a: "attempts_loop env_ok fname filepath du 3 d tr =
      (3, save_json_file (written env_ok 3) fname filepath d,
       tr @ [SaveJson du fname filepath, VerifyJson du fname filepath True])"
    for fname filepath du d tr
    by (rule attempts_loop_first_ok) (simp_all add: env_ok_def)
  have sv: "save 0 ''setting'' False example_setting =
      Inr (busy_setting, [StartThread ''default.json'' ''/settings/'' (Some 2)])"
    by (simp add: save_def save_enqueue_def FileName_getattr_def Preset_getattr_def
        save_trigger_state busy_setting_def example_setting_def FileName_init_def)
  have tr: "snd (snd (saving env_ok ''default.json'' ''/settings/'' (Some 2)
               (busy_setting, example_disk))) =
     [CreateBackup ''default.json'' ''/settings/'',
      SaveJson (Some 2) ''default.json'' ''/settings/'',
      VerifyJson (Some 2) ''default.json'' ''/settings/'' True,
      LogInfo ''default.json'' ''saved'' 0 3,
      DeleteBackup ''default.json'' ''/settings/'']"
    by (simp add: saving_def Let_def delay_loop_elapsed saving_cycle_def a saving_finish_def
        queue_pop_def busy_setting_def example_setting_def)
  show ?thesis unfolding tr using sv by (simp add: env_ok_def)
qed


section \<open>The preset list\<close>











section \<open>Threads\<close>

lemma reachable_exec:
  "reachable fine sys \<Longrightarrow> exec fine as sys = Some sys1 \<Longrightarrow> reachable fine sys1"
proof (induction as arbitrary: sys)
  case Nil
  then show ?case by simp
next
  case (Cons a as)
  then show ?case
    by (auto split: option.splits intro: reachable_step)
qed

lemma initial_example: "initial example_system"
  by (simp add: initial_def example_system_def example_setting_def)


lemma saving_cycle_env_ok:
  "snd (saving_cycle env_ok 3 fname filepath du d) =
     [CreateBackup fname filepath, SaveJson du fname filepath,
      VerifyJson du fname filepath True, LogInfo fname ''saved'' 0 3,
      DeleteBackup fname filepath]"
proof -
  have "attempts_loop env_ok fname filepath du 3 d0 tr =
      (3, save_json_file (written env_ok 3) fname filepath d0,
       tr @ [SaveJson du fname filepath, VerifyJson du fname filepath True])" for d0 tr
    by (rule attempts_loop_first_ok) (simp_all add: env_ok_def)
  then show ?thesis by (simp add: saving_cycle_def)
qed

lemma handover_state:
  "\<exists>sys. exec fine handover_schedule example_system = Some sys \<and>
     st sys = example_setting\<lparr>save_queue := [(''classes.json'', ''/settings/'', Some 3)]\<rparr> \<and>
     threads sys = [\<lparr>w_pc = W_next, w_filename = ''config.json'', w_filepath = ''/config/'',
                     w_dict = Some 1, w_max = 3\<rparr>] \<and>
     requested sys = [''config.json'', ''classes.json''] \<and>
     started (trace sys) = [''config.json'']"
  by (simp add: handover_schedule_def step_def save_def save_enqueue_def
      FileName_getattr_def Preset_getattr_def save_trigger_state example_system_def
      example_setting_def FileName_init_def start_threads_def worker_step_def
      queue_pop_def started_def split_beta saving_cycle_env_ok)

text \<open>
  Claim C9. A state is reachable in which \<open>is_saving\<close> is false while a save is still
  queued: two requests, then the thread of the first one up to line 412. The thread
  has cleared the flag and has not yet called \<open>save\<close> for the next file.
\<close>

theorem is_saving_false_with_pending_save:
  "\<exists>sys. reachable fine sys \<and> \<not> is_saving (st sys) \<and>
     map fst (save_queue (st sys)) = [''classes.json''] \<and>
     map w_pc (threads sys) = [W_next]"
proof -
  from handover_state [of fine] obtain sys where
    e: "exec fine handover_schedule example_system = Some sys"
    and s: "st sys = example_setting\<lparr>save_queue := [(''classes.json'', ''/settings/'', Some 3)]\<rparr>"
    and t: "threads sys = [\<lparr>w_pc = W_next, w_filename = ''config.json'',
        w_filepath = ''/config/'', w_dict = Some 1, w_max = 3\<rparr>]"
    by (elim exE conjE)
  have "reachable fine sys"
    by (rule reachable_exec [OF reachable_initial [OF initial_example] e])
  then show ?thesis using s t by (auto simp: example_setting_def)
qed



section \<open>Calls of \<open>save\<close> that are not interrupted\<close>

lemma started_append [simp]: "started (xs @ ys) = started xs @ started ys"
  by (simp add: started_def)

lemma started_Nil [simp]: "started [] = []"
  by (simp add: started_def)

lemma start_threads_Nil [simp]: "start_threads [] = []"
  by (simp add: start_threads_def)























text \<open>The three last steps of a thread are \<open>saving_finish\<close>.\<close>

lemma worker_finish_steps:
  assumes "w_pc w = W_pop"
  shows "\<exists>w1 s1 w2 s2 s3 ev.
           worker_step False e w s d = (Some w1, s1, d, []) \<and>
           worker_step False e w1 s1 d = (Some w2, s2, d, []) \<and>
           worker_step False e w2 s2 d = (None, s3, d, ev) \<and>
           saving_finish (w_filename w) s = (s3, ev)"
  using assms
  by (auto simp: worker_step_def saving_finish_def Let_def split: prod.splits)

end
